theory Spec2Isabelle
  imports Main "HOL-Library.AList"
begin

section \<open>Trace viewer: data model\<close>

text \<open>
  The trace viewer (class \<open>TraceViewer\<close>) loads newline-delimited JSON event logs, indexes
  them, and replays a recorded page snapshot by answering every intercepted request from
  recorded data. JavaScript strings are modelled as \<open>string\<close>; the fields of the event
  and snapshot types are the ones the viewer reads. Field names carry a short prefix
  (\<open>res_\<close>, \<open>cc_\<close>, \<open>act_\<close>, \<open>ov_\<close>, \<open>fs_\<close>) because several of the source's types share
  the names \<open>contextId\<close>, \<open>frameId\<close>, \<open>url\<close> and \<open>sha1\<close>.
\<close>

record NetworkResourceTraceEvent =
  res_contextId :: string
  res_frameId :: string
  res_url :: string
  res_contentType :: string
  res_responseHeaders :: "(string \<times> string) list"
  res_sha1 :: string

record ContextCreatedTraceEvent =
  cc_contextId :: string
  cc_browserName :: string

record ActionTraceEvent =
  act_contextId :: string
  act_pageId :: "string option"
  act_action :: string
  act_snapshot :: "string option"

text \<open>The union \<open>TraceEvent\<close>, discriminated in the source by the field \<open>type\<close>.\<close>

datatype TraceEvent =
    ContextCreated ContextCreatedTraceEvent
  | ContextDestroyed string
  | PageCreated string string
  | PageDestroyed string string
  | NetworkResource NetworkResourceTraceEvent
  | Action ActionTraceEvent

text \<open>
  What \<open>JSON.parse\<close> makes of a line: \<open>null\<close>; an object whose \<open>type\<close> is one of the
  event types, taken to have the fields its declared type gives it; or any other value (a
  number, a string, a boolean, an array, an object of another \<open>type\<close>), of which the
  viewer reads \<open>type\<close> and does nothing more. Reading \<open>type\<close> of \<open>null\<close> throws.
\<close>

datatype JSONValue = JSONNull | JSONEvent TraceEvent | JSONOther

record ResourceOverride =
  ov_url :: string
  ov_sha1 :: string

record FrameSnapshot =
  fs_frameId :: string
  fs_url :: string
  fs_html :: string
  fs_resourceOverrides :: "ResourceOverride list"

text \<open>A \<open>PageSnapshot\<close> is its sequence \<open>frames\<close>; the first one is the main frame.\<close>

type_synonym PageSnapshot = "FrameSnapshot list"

text \<open>
  The fields of \<open>TraceViewer\<close> that \<open>load\<close> writes. \<open>_browserNames\<close> is a JavaScript
  \<open>Set\<close>, kept here as the list of its elements in insertion order; the two \<open>Map\<close>s are
  partial functions.
\<close>

record TraceViewer =
  traces :: "(string \<times> JSONValue list) list"
  browserNames :: "string list"
  resourceEventsByUrl :: "string \<rightharpoonup> NetworkResourceTraceEvent list"
  contextEventById :: "string \<rightharpoonup> ContextCreatedTraceEvent"

definition newTraceViewer :: TraceViewer where
  "newTraceViewer =
     \<lparr> traces = [], browserNames = [], resourceEventsByUrl = Map.empty,
       contextEventById = Map.empty \<rparr>"

datatype error = ReadError | ParseError | TypeError

section \<open>removeHash\<close>

text \<open>
  \<open>removeHash\<close> builds a \<open>URL\<close> object from the string, sets its \<open>hash\<close> to the empty
  string and serialises it; when the constructor throws, the string is returned as it is.
  The \<open>URL\<close> class belongs to the platform, not to this repository, so the parser is a
  parameter: \<open>P b\<close> is the serialisation of the URL written \<open>b\<close>, or \<open>None\<close> when the
  constructor rejects it. A URL's fragment starts at the first \<open>#\<close> of the input, the
  parser accepts any fragment, and a URL whose \<open>hash\<close> was set to \<open>''\<close> is serialised without
  one; so \<open>P\<close> is applied to the input up to its first \<open>#\<close>.
\<close>

type_synonym URLParser = "string \<Rightarrow> string option"

definition removeHash :: "URLParser \<Rightarrow> string \<Rightarrow> string" where
  "removeHash P url =
     (case P (takeWhile (\<lambda>c. c \<noteq> CHR ''#'') url) of
        None \<Rightarrow> url
      | Some u \<Rightarrow> u)"

text \<open>
  A parser for the concrete examples below: it accepts a string that starts with a scheme
  (a letter, then letters, digits, \<open>+\<close>, \<open>-\<close>, \<open>.\<close>, then a colon) and serialises it
  unchanged, as the platform's parser does for a URL that is already in serialised form.
\<close>

definition isAlpha :: "char \<Rightarrow> bool" where
  "isAlpha c =
     ((of_char c :: nat) \<in> {65 ..< 91} \<or> (of_char c :: nat) \<in> {97 ..< 123})"

definition isSchemeChar :: "char \<Rightarrow> bool" where
  "isSchemeChar c =
     (isAlpha c \<or> (of_char c :: nat) \<in> {48 ..< 58} \<or> c \<in> {CHR ''+'', CHR ''-'', CHR ''.''})"

definition parseSerialised :: URLParser where
  "parseSerialised b =
     (case b of
        [] \<Rightarrow> None
      | c # cs \<Rightarrow>
          (if isAlpha c \<and> take 1 (dropWhile isSchemeChar cs) = '':'' then Some b else None))"

section \<open>Resource matching\<close>

text \<open>
  The loop of the route handler that picks a recorded resource: candidates of another
  context are passed over; once a candidate is held, only one of the requesting frame may
  replace it; a candidate of the requesting frame ends the loop.
\<close>

fun matchLoop ::
  "NetworkResourceTraceEvent option \<Rightarrow> NetworkResourceTraceEvent list \<Rightarrow> string \<Rightarrow> string
     \<Rightarrow> NetworkResourceTraceEvent option" where
  "matchLoop resource [] contextId frameId = resource"
| "matchLoop resource (resourceEvent # rest) contextId frameId =
     (if res_contextId resourceEvent \<noteq> contextId then
        matchLoop resource rest contextId frameId
      else if resource \<noteq> None \<and> res_frameId resourceEvent \<noteq> frameId then
        matchLoop resource rest contextId frameId
      else if res_frameId resourceEvent = frameId then Some resourceEvent
      else matchLoop (Some resourceEvent) rest contextId frameId)"

text \<open>The candidate list: \<open>this._resourceEventsByUrl.get(removeHash(url)) || []\<close>.\<close>

definition candidates ::
  "URLParser \<Rightarrow> TraceViewer \<Rightarrow> string \<Rightarrow> NetworkResourceTraceEvent list" where
  "candidates P viewer url =
     (case resourceEventsByUrl viewer (removeHash P url) of
        None \<Rightarrow> []
      | Some evs \<Rightarrow> evs)"

definition matchResource ::
  "URLParser \<Rightarrow> TraceViewer \<Rightarrow> string \<Rightarrow> string \<Rightarrow> string
     \<Rightarrow> NetworkResourceTraceEvent option" where
  "matchResource P viewer url contextId frameId =
     matchLoop None (candidates P viewer url) contextId frameId"

section \<open>Loading a trace file\<close>

text \<open>
  \<open>load\<close> reads the file, splits it at line feeds, trims every line, drops the empty ones
  and parses the others with \<open>JSON.parse\<close>; only then does it walk over the events and
  write to the viewer's tables. The file system (\<open>readFile\<close>: file name to content,
  \<open>None\<close> when reading throws) and \<open>JSON.parse\<close> (\<open>None\<close> when it throws) are the
  platform's and are parameters. A \<open>char\<close> stands for a UTF-16 code unit below 256.
\<close>

fun split :: "char \<Rightarrow> string \<Rightarrow> string list" where
  "split sep [] = [[]]"
| "split sep (c # cs) =
     (if c = sep then [] # split sep cs
      else (case split sep cs of
              [] \<Rightarrow> [[c]]
            | l # ls \<Rightarrow> (c # l) # ls))"

text \<open>
  The code units below 256 that \<open>String.prototype.trim\<close> removes: tab, line feed,
  vertical tab, form feed, carriage return, space and the no-break space U+00A0.
\<close>

definition isWhiteSpace :: "char \<Rightarrow> bool" where
  "isWhiteSpace c = ((of_char c :: nat) \<in> {9 ..< 14} \<or> c = CHR '' '' \<or> c = CHR 0xA0)"

definition trim :: "string \<Rightarrow> string" where
  "trim s = rev (dropWhile isWhiteSpace (rev (dropWhile isWhiteSpace s)))"

definition traceLines :: "string \<Rightarrow> string list" where
  "traceLines traceContent = filter (\<lambda>line. line \<noteq> []) (map trim (split (CHR 0x0A) traceContent))"

definition parseEvents :: "(string \<Rightarrow> JSONValue option) \<Rightarrow> string \<Rightarrow> JSONValue list option" where
  "parseEvents JSON_parse traceContent = those (map JSON_parse (traceLines traceContent))"

definition Set_add :: "string \<Rightarrow> string list \<Rightarrow> string list" where
  "Set_add x xs = (if x \<in> set xs then xs else xs @ [x])"

text \<open>The body of the loop over the parsed events, for a value that is an event.\<close>

definition indexEvent :: "TraceEvent \<Rightarrow> TraceViewer \<Rightarrow> TraceViewer" where
  "indexEvent event viewer =
     (case event of
        ContextCreated e \<Rightarrow>
          viewer\<lparr> browserNames := Set_add (cc_browserName e) (browserNames viewer),
                  contextEventById := (contextEventById viewer)(cc_contextId e \<mapsto> e) \<rparr>
      | NetworkResource e \<Rightarrow>
          (let responseEvents =
                 (case resourceEventsByUrl viewer (res_url e) of
                    None \<Rightarrow> []
                  | Some evs \<Rightarrow> evs)
           in viewer\<lparr> resourceEventsByUrl :=
                         (resourceEventsByUrl viewer)(res_url e \<mapsto> responseEvents @ [e]) \<rparr>)
      | _ \<Rightarrow> viewer)"

text \<open>
  The loop over the parsed values. It stops with a type error at a \<open>null\<close>, the tables
  keeping what the values before it have written. The result pairs the outcome (\<open>Inl\<close>:
  it threw) with the viewer's fields at that moment.
\<close>

fun indexEvents :: "JSONValue list \<Rightarrow> TraceViewer \<Rightarrow> (error + unit) \<times> TraceViewer" where
  "indexEvents [] viewer = (Inr (), viewer)"
| "indexEvents (event # rest) viewer =
     (case event of
        JSONNull \<Rightarrow> (Inl TypeError, viewer)
      | JSONEvent e \<Rightarrow> indexEvents rest (indexEvent e viewer)
      | JSONOther \<Rightarrow> indexEvents rest viewer)"

text \<open>
  The result of \<open>load\<close> pairs the outcome of the call with the viewer's fields when the
  call ends, whichever way it ends. The trace is appended only when the loop has ended.
\<close>

definition load ::
  "(string \<rightharpoonup> string) \<Rightarrow> (string \<Rightarrow> JSONValue option) \<Rightarrow> string \<Rightarrow> TraceViewer
     \<Rightarrow> (error + unit) \<times> TraceViewer" where
  "load readFile JSON_parse traceFile viewer =
     (case readFile traceFile of
        None \<Rightarrow> (Inl ReadError, viewer)
      | Some traceContent \<Rightarrow>
          (case parseEvents JSON_parse traceContent of
             None \<Rightarrow> (Inl ParseError, viewer)
           | Some events \<Rightarrow>
               (case indexEvents events viewer of
                  (Inl e, viewer') \<Rightarrow> (Inl e, viewer')
                | (Inr _, viewer') \<Rightarrow>
                    (Inr (), viewer'\<lparr> traces := traces viewer' @ [(traceFile, events)] \<rparr>))))"

section \<open>Grouping the actions by context\<close>









section \<open>Rendering a snapshot: the route handler\<close>

text \<open>
  What a route ends with: \<open>route.fulfill\<close> with a content type, a body and possibly
  headers, or \<open>route.abort\<close>. The headers object is an association list in the order of
  its keys' first assignment.
\<close>

datatype RouteResult =
    Fulfill string string "(string \<times> string) list option"
  | Abort

text \<open>
  The state one call of \<open>_renderSnapshot\<close> shares among its route handlers: the set
  \<open>unknownUrls\<close> (its elements in insertion order), the lines written to the console, and
  the results pushed to \<open>intercepted\<close>.
\<close>

record Replay =
  unknownUrls :: "string list"
  console :: "string list"
  intercepted :: "RouteResult list"

definition newReplay :: Replay where
  "newReplay = \<lparr> unknownUrls = [], console = [], intercepted = [] \<rparr>"

text \<open>An intercepted request: its URL, and the URL of the frame that issued it.\<close>

record Request =
  req_url :: string
  req_frameUrl :: string

definition frameBySrc :: "PageSnapshot \<Rightarrow> string \<rightharpoonup> FrameSnapshot" where
  "frameBySrc snapshot =
     fold (\<lambda>frameSnapshot m. m(fs_url frameSnapshot \<mapsto> frameSnapshot)) snapshot Map.empty"

definition unknown :: "string \<Rightarrow> Replay \<Rightarrow> Replay" where
  "unknown url rp =
     (let rp' =
        (if url \<notin> set (unknownUrls rp) then
           rp\<lparr> console := console rp @ [''Request to unknown url: '' @ url],
               unknownUrls := unknownUrls rp @ [url] \<rparr>
         else rp)
      in rp'\<lparr> intercepted := intercepted rp' @ [Abort] \<rparr>)"

record ResourceData =
  rd_contentType :: string
  rd_body :: string
  rd_headers :: "(string \<times> string) list"

text \<open>
  \<open>storage\<close> is the trace storage directory: file name to content, \<open>None\<close> when reading
  throws. The file read is \<open>overrideSha1 || event.sha1\<close>, so an empty override hash gives
  way to the event's.
\<close>

definition readResource ::
  "(string \<rightharpoonup> string) \<Rightarrow> NetworkResourceTraceEvent \<Rightarrow> string option \<Rightarrow> ResourceData option" where
  "readResource storage event overrideSha1 =
     (let name = (case overrideSha1 of
                    None \<Rightarrow> res_sha1 event
                  | Some s \<Rightarrow> if s = [] then res_sha1 event else s)
      in case storage name of
           None \<Rightarrow> None
         | Some body \<Rightarrow>
             Some \<lparr> rd_contentType = res_contentType event, rd_body = body,
                    rd_headers = res_responseHeaders event \<rparr>)"

definition responseHeaders :: "(string \<times> string) list \<Rightarrow> (string \<times> string) list" where
  "responseHeaders hs =
     AList.update ''Access-Control-Allow-Origin'' ''*''
       (fold (\<lambda>(name, val) headers. AList.update name val headers) hs [])"

text \<open>
  The handler installed with \<open>page.route('**', ...)\<close>. It writes to the shared state in one
  step at its end, so handlers running concurrently act on that state one after the other.
\<close>

definition routeHandler ::
  "URLParser \<Rightarrow> TraceViewer \<Rightarrow> (string \<rightharpoonup> string) \<Rightarrow> PageSnapshot \<Rightarrow> string \<Rightarrow> Request
     \<Rightarrow> Replay \<Rightarrow> Replay" where
  "routeHandler P viewer storage snapshot contextId request rp =
     (let url = req_url request in
      case frameBySrc snapshot url of
        Some frameSnapshot \<Rightarrow>
          rp\<lparr> intercepted :=
                intercepted rp @ [Fulfill ''text/html'' (fs_html frameSnapshot) None] \<rparr>
      | None \<Rightarrow>
          (case frameBySrc snapshot (req_frameUrl request) of
             None \<Rightarrow> unknown url rp
           | Some frameSnapshot \<Rightarrow>
               (case matchResource P viewer url contextId (fs_frameId frameSnapshot) of
                  None \<Rightarrow> unknown url rp
                | Some resource \<Rightarrow>
                    (let resourceOverride =
                           find (\<lambda>override. ov_url override = url) (fs_resourceOverrides frameSnapshot);
                         overrideSha1 = map_option ov_sha1 resourceOverride
                     in case readResource storage resource overrideSha1 of
                          None \<Rightarrow> unknown url rp
                        | Some resourceData \<Rightarrow>
                            rp\<lparr> intercepted :=
                                  intercepted rp @
                                    [Fulfill (rd_contentType resourceData) (rd_body resourceData)
                                       (Some (responseHeaders (rd_headers resourceData)))] \<rparr>))))"

text \<open>One replay: the handler runs once for each request the page issues.\<close>

definition renderRequests ::
  "URLParser \<Rightarrow> TraceViewer \<Rightarrow> (string \<rightharpoonup> string) \<Rightarrow> PageSnapshot \<Rightarrow> string \<Rightarrow> Request list
     \<Rightarrow> Replay" where
  "renderRequests P viewer storage snapshot contextId requests =
     fold (routeHandler P viewer storage snapshot contextId) requests newReplay"

text \<open>
  The requests the handler has no answer for, that is, those for which it ends in
  \<open>unknown(route)\<close>: the URL is not a frame's, and either the requesting frame is not in
  the snapshot, or no recorded resource matches, or the body cannot be read.
\<close>

definition unmatchedRequest ::
  "URLParser \<Rightarrow> TraceViewer \<Rightarrow> (string \<rightharpoonup> string) \<Rightarrow> PageSnapshot \<Rightarrow> string \<Rightarrow> Request
     \<Rightarrow> bool" where
  "unmatchedRequest P viewer storage snapshot contextId request =
     (frameBySrc snapshot (req_url request) = None \<and>
      (case frameBySrc snapshot (req_frameUrl request) of
         None \<Rightarrow> True
       | Some frameSnapshot \<Rightarrow>
           (case matchResource P viewer (req_url request) contextId (fs_frameId frameSnapshot) of
              None \<Rightarrow> True
            | Some resource \<Rightarrow>
                readResource storage resource
                  (map_option ov_sha1
                     (find (\<lambda>override. ov_url override = req_url request)
                        (fs_resourceOverrides frameSnapshot))) = None)))"

section \<open>Walking the live frame tree\<close>

text \<open>
  A live frame with its URL and its child frames. \<open>_postprocessSnapshotFrame\<close> waits for
  every child frame to load and calls itself for the child with every frame of the snapshot
  whose URL the child's URL ends with; the model returns these steps in order.
\<close>

datatype Frame = Frame (frameUrl: string) (childFrames: "Frame list")

datatype PostprocessStep =
    WaitForLoadState Frame
  | Postprocess FrameSnapshot Frame

definition endsWith :: "string \<Rightarrow> string \<Rightarrow> bool" where
  "endsWith s x = (length x \<le> length s \<and> drop (length s - length x) s = x)"

fun postprocessSnapshotFrame ::
  "PageSnapshot \<Rightarrow> FrameSnapshot \<Rightarrow> Frame \<Rightarrow> PostprocessStep list" where
  "postprocessSnapshotFrame snapshot frameSnapshot (Frame u children) =
     concat (map (\<lambda>childFrame.
        WaitForLoadState childFrame #
        concat (map (\<lambda>childData.
           if endsWith (frameUrl childFrame) (fs_url childData) then
             Postprocess childData childFrame #
               postprocessSnapshotFrame snapshot childData childFrame
           else []) snapshot)) children)"

text \<open>The snapshot frames the walk calls itself with for a given live frame.\<close>

definition recursedWith :: "Frame \<Rightarrow> PostprocessStep list \<Rightarrow> FrameSnapshot list" where
  "recursedWith frame steps =
     List.map_filter
       (\<lambda>step. case step of
                 Postprocess childData childFrame \<Rightarrow>
                   if childFrame = frame then Some childData else None
               | WaitForLoadState _ \<Rightarrow> None) steps"

section \<open>Example data\<close>

text \<open>A recorded stylesheet response, and the viewer that has indexed a list of responses.\<close>

definition exampleResource ::
  "string \<Rightarrow> string \<Rightarrow> string \<Rightarrow> string \<Rightarrow> NetworkResourceTraceEvent" where
  "exampleResource c f u s =
     \<lparr> res_contextId = c, res_frameId = f, res_url = u, res_contentType = ''text/css'',
       res_responseHeaders = [], res_sha1 = s \<rparr>"

definition exampleViewer :: "NetworkResourceTraceEvent list \<Rightarrow> TraceViewer" where
  "exampleViewer rs = fold indexEvent (map NetworkResource rs) newTraceViewer"

text \<open>
  A frame snapshot; a page snapshot of one frame that overrides a stylesheet; a storage
  directory with the recorded and the overriding stylesheet; and the requests of a replay:
  the document, then twice a script that was never recorded.
\<close>

definition exampleFrame :: "string \<Rightarrow> string \<Rightarrow> string \<Rightarrow> ResourceOverride list \<Rightarrow> FrameSnapshot" where
  "exampleFrame f u h ovs =
     \<lparr> fs_frameId = f, fs_url = u, fs_html = h, fs_resourceOverrides = ovs \<rparr>"

definition exampleSnapshot :: PageSnapshot where
  "exampleSnapshot =
     [exampleFrame ''f0'' ''https://a/'' ''<html>root</html>''
        [\<lparr> ov_url = ''https://a/s.css'', ov_sha1 = ''ov1'' \<rparr>]]"

definition exampleStorage :: "string \<rightharpoonup> string" where
  "exampleStorage = map_of [(''s1'', ''p{}''), (''ov1'', ''p{color:red}'')]"

definition exampleRequests :: "Request list" where
  "exampleRequests =
     [\<lparr> req_url = ''https://a/'', req_frameUrl = ''https://a/'' \<rparr>,
      \<lparr> req_url = ''https://a/missing.js'', req_frameUrl = ''https://a/'' \<rparr>,
      \<lparr> req_url = ''https://a/missing.js'', req_frameUrl = ''https://a/'' \<rparr>]"

text \<open>A page whose two child frames were both recorded as \<open>about:blank\<close>.\<close>

definition blankSnapshot :: PageSnapshot where
  "blankSnapshot =
     [exampleFrame ''f0'' ''https://a/'' ''<html>root</html>'' [],
      exampleFrame ''f1'' ''about:blank'' ''<p>one</p>'' [],
      exampleFrame ''f2'' ''about:blank'' ''<p>two</p>'' []]"

text \<open>
  Lines of a trace with what \<open>JSON.parse\<close> makes of them, and five trace files: a
  well-formed one, one whose second line is cut short, one whose resource was recorded
  under a URL with a fragment, one whose action names a context that was never created,
  and one with a line \<open>null\<close> in its middle.
\<close>

definition contextLine :: string where
  "contextLine = ''{\"type\":\"context-created\",\"contextId\":\"c\",\"browserName\":\"chromium\"}''"

definition plainResourceLine :: string where
  "plainResourceLine = ''{\"type\":\"resource\",\"contextId\":\"c\",\"frameId\":\"f\",\"url\":\"https://x/y\",\"contentType\":\"text/css\",\"responseHeaders\":[],\"sha1\":\"s1\"}''"

definition fragmentResourceLine :: string where
  "fragmentResourceLine = ''{\"type\":\"resource\",\"contextId\":\"c\",\"frameId\":\"f\",\"url\":\"https://x/y#frag1\",\"contentType\":\"text/css\",\"responseHeaders\":[],\"sha1\":\"s2\"}''"

definition orphanActionLine :: string where
  "orphanActionLine = ''{\"type\":\"action\",\"contextId\":\"c9\",\"action\":\"click\"}''"

definition exampleParse :: "string \<Rightarrow> JSONValue option" where
  "exampleParse =
     map_of
       [(contextLine,
           JSONEvent (ContextCreated \<lparr> cc_contextId = ''c'', cc_browserName = ''chromium'' \<rparr>)),
        (plainResourceLine,
           JSONEvent (NetworkResource (exampleResource ''c'' ''f'' ''https://x/y'' ''s1''))),
        (fragmentResourceLine,
           JSONEvent (NetworkResource (exampleResource ''c'' ''f'' ''https://x/y#frag1'' ''s2''))),
        (orphanActionLine,
           JSONEvent (Action \<lparr> act_contextId = ''c9'', act_pageId = None, act_action = ''click'',
                                act_snapshot = None \<rparr>)),
        (''null'', JSONNull),
        (''42'', JSONOther)]"

definition goodTrace :: string where
  "goodTrace = contextLine @ [CHR 0x0A] @ plainResourceLine @ [CHR 0x0A]"

definition brokenTrace :: string where
  "brokenTrace = contextLine @ [CHR 0x0A] @ ''{\"type\":'' @ [CHR 0x0A]"

definition orphanTrace :: string where
  "orphanTrace = orphanActionLine @ [CHR 0x0A]"

definition nullTrace :: string where
  "nullTrace = contextLine @ [CHR 0x0A] @ ''42'' @ [CHR 0x0A] @ ''null'' @ [CHR 0x0A] @ plainResourceLine"

definition exampleFiles :: "string \<rightharpoonup> string" where
  "exampleFiles =
     map_of
       [(''good.trace'', goodTrace),
        (''broken.trace'', brokenTrace),
        (''fragment.trace'', fragmentResourceLine),
        (''orphan.trace'', orphanTrace),
        (''null.trace'', nullTrace)]"

section \<open>Properties of the matching loop\<close>

lemma matchLoop_held:
  "matchLoop (Some r0) evs c f =
     (case find (\<lambda>e. res_contextId e = c \<and> res_frameId e = f) evs of
        Some e \<Rightarrow> Some e
      | None \<Rightarrow> Some r0)"
  by (induction evs) auto

lemma matchLoop_find:
  "matchLoop None evs c f =
     (case find (\<lambda>e. res_contextId e = c \<and> res_frameId e = f) evs of
        Some e \<Rightarrow> Some e
      | None \<Rightarrow> find (\<lambda>e. res_contextId e = c) evs)"
proof (induction evs)
  case Nil
  show ?case by simp
next
  case (Cons e evs)
  show ?case
  proof (cases "res_contextId e = c")
    case False
    with Cons show ?thesis by (simp split: option.split)
  next
    case True
    then show ?thesis by (simp add: matchLoop_held split: option.split)
  qed
qed

lemma matchLoop_filter:
  "matchLoop resource evs c f =
     matchLoop resource (filter (\<lambda>e. res_contextId e = c) evs) c f"
  by (induction evs arbitrary: resource) auto

lemma find_context_frame:
  "find (\<lambda>e. res_contextId e = c \<and> res_frameId e = f) evs =
     find (\<lambda>e. res_frameId e = f) (filter (\<lambda>e. res_contextId e = c) evs)"
  by (induction evs) auto

text \<open>
  Claim C1, as amended. Of the candidates stored under the normalised URL, matching
  returns the first one of the replayed context whose \<open>frameId\<close> is the preferred one if
  there is one, and the earliest one of the replayed context otherwise. When the
  candidates of the replayed context are three, of which only the third has frame \<open>F\<close>:
  preferring \<open>F\<close> returns the third; preferring another frame \<open>G\<close> returns the first,
  except when the second candidate has frame \<open>G\<close> and the first has not, where it returns
  the second.
\<close>

theorem C1_frame_affinity:
  "matchResource P viewer url c f =
     (case find (\<lambda>e. res_contextId e = c \<and> res_frameId e = f) (candidates P viewer url) of
        Some e \<Rightarrow> Some e
      | None \<Rightarrow> find (\<lambda>e. res_contextId e = c) (candidates P viewer url))
   \<and> (filter (\<lambda>e. res_contextId e = c) (candidates P viewer url) = [r1, r2, r3]
        \<and> res_frameId r1 \<noteq> F \<and> res_frameId r2 \<noteq> F \<and> res_frameId r3 = F \<longrightarrow>
          matchResource P viewer url c F = Some r3
        \<and> (\<forall>G. G \<noteq> F \<and> (res_frameId r2 = G \<longrightarrow> res_frameId r1 = G) \<longrightarrow>
               matchResource P viewer url c G = Some r1)
        \<and> (\<forall>G. G \<noteq> F \<and> res_frameId r2 = G \<and> res_frameId r1 \<noteq> G \<longrightarrow>
               matchResource P viewer url c G = Some r2))"
proof -
  let ?same = "filter (\<lambda>e. res_contextId e = c) (candidates P viewer url)"
  have a: "matchResource P viewer url c f =
     (case find (\<lambda>e. res_contextId e = c \<and> res_frameId e = f) (candidates P viewer url) of
        Some e \<Rightarrow> Some e
      | None \<Rightarrow> find (\<lambda>e. res_contextId e = c) (candidates P viewer url))"
    by (simp add: matchResource_def matchLoop_find)
  have m: "matchResource P viewer url c g = matchLoop None ?same c g" for g
    unfolding matchResource_def by (rule matchLoop_filter)
  have b: "matchResource P viewer url c F = Some r3
        \<and> (\<forall>G. G \<noteq> F \<and> (res_frameId r2 = G \<longrightarrow> res_frameId r1 = G) \<longrightarrow>
               matchResource P viewer url c G = Some r1)
        \<and> (\<forall>G. G \<noteq> F \<and> res_frameId r2 = G \<and> res_frameId r1 \<noteq> G \<longrightarrow>
               matchResource P viewer url c G = Some r2)"
    if three: "?same = [r1, r2, r3]"
      and fr: "res_frameId r1 \<noteq> F" "res_frameId r2 \<noteq> F" "res_frameId r3 = F"
  proof -
    have "\<forall>e\<in>set ?same. res_contextId e = c" by simp
    then have cx: "res_contextId r1 = c" "res_contextId r2 = c" "res_contextId r3 = c"
      unfolding three by simp_all
    show ?thesis
      unfolding m three using cx fr by auto
  qed
  from a b show ?thesis by blast
qed

theorem C1_frame_affinity_witness:
  "matchResource parseSerialised
     (exampleViewer [exampleResource ''other'' ''F'' ''https://x/y'' ''s0'',
                     exampleResource ''c'' ''A'' ''https://x/y'' ''s1'',
                     exampleResource ''c'' ''B'' ''https://x/y'' ''s2'',
                     exampleResource ''c'' ''F'' ''https://x/y'' ''s3''])
     ''https://x/y#top'' ''c'' ''F'' = Some (exampleResource ''c'' ''F'' ''https://x/y'' ''s3'')
   \<and> matchResource parseSerialised
     (exampleViewer [exampleResource ''other'' ''F'' ''https://x/y'' ''s0'',
                     exampleResource ''c'' ''A'' ''https://x/y'' ''s1'',
                     exampleResource ''c'' ''B'' ''https://x/y'' ''s2'',
                     exampleResource ''c'' ''F'' ''https://x/y'' ''s3''])
     ''https://x/y#top'' ''c'' ''Z'' = Some (exampleResource ''c'' ''A'' ''https://x/y'' ''s1'')"
proof -
  let ?r0 = "exampleResource ''other'' ''F'' ''https://x/y'' ''s0''"
  let ?r1 = "exampleResource ''c'' ''A'' ''https://x/y'' ''s1''"
  let ?r2 = "exampleResource ''c'' ''B'' ''https://x/y'' ''s2''"
  let ?r3 = "exampleResource ''c'' ''F'' ''https://x/y'' ''s3''"
  have h1: "candidates parseSerialised (exampleViewer [?r0, ?r1, ?r2, ?r3]) ''https://x/y#top''
              = [?r0, ?r1, ?r2, ?r3]"
    by (simp add: candidates_def exampleViewer_def indexEvent_def newTraceViewer_def
        removeHash_def parseSerialised_def isAlpha_def isSchemeChar_def exampleResource_def)
  have h2: "filter (\<lambda>e. res_contextId e = ''c'') [?r0, ?r1, ?r2, ?r3] = [?r1, ?r2, ?r3]"
    by (simp add: exampleResource_def)
  have fr: "res_frameId ?r1 \<noteq> ''F'' \<and> res_frameId ?r2 \<noteq> ''F'' \<and> res_frameId ?r3 = ''F''"
          "res_frameId ?r2 \<noteq> ''Z''"
    by (simp_all add: exampleResource_def)
  have three: "filter (\<lambda>e. res_contextId e = ''c'')
                 (candidates parseSerialised (exampleViewer [?r0, ?r1, ?r2, ?r3]) ''https://x/y#top'')
               = [?r1, ?r2, ?r3]"
    unfolding h1 by (rule h2)
  note t = C1_frame_affinity [of parseSerialised "exampleViewer [?r0, ?r1, ?r2, ?r3]"
      "''https://x/y#top''" "''c''" "''F''" "?r1" "?r2" "?r3" "''F''"]
  have q: "matchResource parseSerialised (exampleViewer [?r0, ?r1, ?r2, ?r3])
          ''https://x/y#top'' ''c'' ''F'' = Some ?r3
      \<and> (\<forall>G. G \<noteq> ''F'' \<and> (res_frameId ?r2 = G \<longrightarrow> res_frameId ?r1 = G) \<longrightarrow>
             matchResource parseSerialised (exampleViewer [?r0, ?r1, ?r2, ?r3])
               ''https://x/y#top'' ''c'' G = Some ?r1)
      \<and> (\<forall>G. G \<noteq> ''F'' \<and> res_frameId ?r2 = G \<and> res_frameId ?r1 \<noteq> G \<longrightarrow>
             matchResource parseSerialised (exampleViewer [?r0, ?r1, ?r2, ?r3])
               ''https://x/y#top'' ''c'' G = Some ?r2)"
    by (rule mp [OF conjunct2 [OF t] conjI [OF three fr(1)]])
  from q have 1: "matchResource parseSerialised (exampleViewer [?r0, ?r1, ?r2, ?r3])
          ''https://x/y#top'' ''c'' ''F'' = Some ?r3"
    by (rule conjunct1)
  from q have "\<forall>G. G \<noteq> ''F'' \<and> (res_frameId ?r2 = G \<longrightarrow> res_frameId ?r1 = G) \<longrightarrow>
             matchResource parseSerialised (exampleViewer [?r0, ?r1, ?r2, ?r3])
               ''https://x/y#top'' ''c'' G = Some ?r1"
    by (rule conjunct1 [OF conjunct2])
  then have "''Z'' \<noteq> ''F'' \<and> (res_frameId ?r2 = ''Z'' \<longrightarrow> res_frameId ?r1 = ''Z'') \<longrightarrow>
             matchResource parseSerialised (exampleViewer [?r0, ?r1, ?r2, ?r3])
               ''https://x/y#top'' ''c'' ''Z'' = Some ?r1"
    by (rule spec)
  with fr(2) have 2: "matchResource parseSerialised (exampleViewer [?r0, ?r1, ?r2, ?r3])
               ''https://x/y#top'' ''c'' ''Z'' = Some ?r1"
    by simp
  from 1 2 show ?thesis by (rule conjI)
qed

text \<open>
  The claim as written says that preferring any frame other than \<open>F\<close> returns the first
  candidate. Here only the third candidate has frame \<open>F\<close>, the preferred frame is \<open>B\<close>,
  and the second candidate, which has frame \<open>B\<close>, is returned.
\<close>

theorem C1_other_frame_counterexample:
  "res_frameId (exampleResource ''c'' ''A'' ''https://x/y'' ''s1'') \<noteq> ''F''
   \<and> res_frameId (exampleResource ''c'' ''B'' ''https://x/y'' ''s2'') \<noteq> ''F''
   \<and> res_frameId (exampleResource ''c'' ''F'' ''https://x/y'' ''s3'') = ''F''
   \<and> ''B'' \<noteq> ''F''
   \<and> matchResource parseSerialised
     (exampleViewer [exampleResource ''c'' ''A'' ''https://x/y'' ''s1'',
                     exampleResource ''c'' ''B'' ''https://x/y'' ''s2'',
                     exampleResource ''c'' ''F'' ''https://x/y'' ''s3''])
     ''https://x/y'' ''c'' ''B'' \<noteq> Some (exampleResource ''c'' ''A'' ''https://x/y'' ''s1'')"
  by (simp add: exampleViewer_def indexEvent_def newTraceViewer_def removeHash_def
        parseSerialised_def isAlpha_def isSchemeChar_def exampleResource_def
        matchResource_def candidates_def)

lemma find_SomeD: "find Q xs = Some x \<Longrightarrow> Q x \<and> x \<in> set xs"
  by (induction xs) (auto split: if_splits)

lemma matchLoop_Some:
  "matchLoop None evs c f = Some r \<Longrightarrow> res_contextId r = c \<and> r \<in> set evs"
  by (auto simp: matchLoop_find split: option.splits dest: find_SomeD)

lemma matchLoop_None:
  "\<forall>e\<in>set evs. res_contextId e \<noteq> c \<Longrightarrow> matchLoop None evs c f = None"
  by (induction evs) auto

text \<open>
  Claim C2. Whatever the request URL, the replayed context and the frame hint, a resource
  returned by the matcher belongs to the replayed context and is one of the candidates
  stored under the normalised URL; when no candidate belongs to the replayed context the
  matcher returns nothing, and the route handler treats the request as unknown.
\<close>

theorem C2_context_isolation:
  "(matchResource P viewer url c f = Some r \<longrightarrow>
      res_contextId r = c \<and> r \<in> set (candidates P viewer url))
   \<and> ((\<forall>e\<in>set (candidates P viewer url). res_contextId e \<noteq> c) \<longrightarrow>
        matchResource P viewer url c f = None
      \<and> (frameBySrc snapshot url = None \<longrightarrow>
           routeHandler P viewer storage snapshot c \<lparr> req_url = url, req_frameUrl = src \<rparr> rp
             = unknown url rp))"
proof -
  have a: "matchResource P viewer url c f = Some r \<longrightarrow>
      res_contextId r = c \<and> r \<in> set (candidates P viewer url)"
    by (auto simp: matchResource_def dest: matchLoop_Some)
  have b: "matchResource P viewer url c g = None"
    if "\<forall>e\<in>set (candidates P viewer url). res_contextId e \<noteq> c" for g
    using that by (simp add: matchResource_def matchLoop_None)
  have c: "routeHandler P viewer storage snapshot c \<lparr> req_url = url, req_frameUrl = src \<rparr> rp
             = unknown url rp"
    if "\<forall>e\<in>set (candidates P viewer url). res_contextId e \<noteq> c" "frameBySrc snapshot url = None"
    using that b by (simp add: routeHandler_def split: option.split)
  from a b c show ?thesis by blast
qed

theorem C2_context_isolation_witness:
  "matchResource parseSerialised
     (exampleViewer [exampleResource ''B'' ''f'' ''https://x/y'' ''s1'',
                     exampleResource ''A'' ''f'' ''https://x/y'' ''s2''])
     ''https://x/y'' ''A'' ''f'' = Some (exampleResource ''A'' ''f'' ''https://x/y'' ''s2'')
   \<and> res_contextId (exampleResource ''A'' ''f'' ''https://x/y'' ''s2'') = ''A''
   \<and> matchResource parseSerialised
     (exampleViewer [exampleResource ''B'' ''f'' ''https://x/y'' ''s1''])
     ''https://x/y'' ''A'' ''f'' = None
   \<and> intercepted (routeHandler parseSerialised
       (exampleViewer [exampleResource ''B'' ''f'' ''https://x/y'' ''s1'']) Map.empty
       [\<lparr> fs_frameId = ''f'', fs_url = ''https://x/'', fs_html = ''<html>'', fs_resourceOverrides = [] \<rparr>]
       ''A'' \<lparr> req_url = ''https://x/y'', req_frameUrl = ''https://x/'' \<rparr> newReplay) = [Abort]"
proof -
  let ?rB = "exampleResource ''B'' ''f'' ''https://x/y'' ''s1''"
  let ?rA = "exampleResource ''A'' ''f'' ''https://x/y'' ''s2''"
  let ?snap = "[\<lparr> fs_frameId = ''f'', fs_url = ''https://x/'', fs_html = ''<html>'', fs_resourceOverrides = [] \<rparr>]"
  have m: "matchResource parseSerialised (exampleViewer [?rB, ?rA]) ''https://x/y'' ''A'' ''f'' = Some ?rA"
    by (simp add: exampleViewer_def indexEvent_def newTraceViewer_def removeHash_def
        parseSerialised_def isAlpha_def isSchemeChar_def exampleResource_def
        matchResource_def candidates_def)
  have n: "\<forall>e\<in>set (candidates parseSerialised (exampleViewer [?rB]) ''https://x/y''). res_contextId e \<noteq> ''A''"
    by (simp add: exampleViewer_def indexEvent_def newTraceViewer_def removeHash_def
        parseSerialised_def isAlpha_def isSchemeChar_def exampleResource_def candidates_def)
  have fr: "frameBySrc ?snap ''https://x/y'' = None"
    by (simp add: frameBySrc_def)
  from C2_context_isolation [of parseSerialised "exampleViewer [?rB, ?rA]" "''https://x/y''" "''A''" "''f''" "?rA"] m
  have 1: "res_contextId ?rA = ''A''" by blast
  from C2_context_isolation [of parseSerialised "exampleViewer [?rB]" "''https://x/y''" "''A''" "''f''" "?rB" "?snap" Map.empty "''https://x/''" newReplay] n fr
  have 2: "matchResource parseSerialised (exampleViewer [?rB]) ''https://x/y'' ''A'' ''f'' = None"
    and 3: "routeHandler parseSerialised (exampleViewer [?rB]) Map.empty ?snap ''A''
             \<lparr> req_url = ''https://x/y'', req_frameUrl = ''https://x/'' \<rparr> newReplay = unknown ''https://x/y'' newReplay"
    by blast+
  show ?thesis using m 1 2 3 by (simp add: unknown_def newReplay_def)
qed


section \<open>Properties of load\<close>

lemma those_map_None: "those (map f xs) = None \<longleftrightarrow> (\<exists>x\<in>set xs. f x = None)"
  by (induction xs) (auto split: option.splits)

text \<open>
  Claim C8. When the file is read and one of its non-empty trimmed lines is rejected by
  \<open>JSON.parse\<close>, \<open>load\<close> fails with a parse error and the viewer (the list of traces,
  the browser names, the context table and the resource index) is what it was before the
  call.
\<close>

theorem C8_parse_error_atomic:
  assumes "readFile traceFile = Some traceContent"
    and "line \<in> set (traceLines traceContent)"
    and "JSON_parse line = None"
  shows "load readFile JSON_parse traceFile viewer = (Inl ParseError, viewer)"
proof -
  from assms(2,3) have "parseEvents JSON_parse traceContent = None"
    unfolding parseEvents_def those_map_None by blast
  with assms(1) show ?thesis by (simp add: load_def)
qed

lemmas example_defs = contextLine_def plainResourceLine_def fragmentResourceLine_def
  orphanActionLine_def exampleParse_def exampleFiles_def exampleResource_def

lemma good_lines: "traceLines goodTrace = [contextLine, plainResourceLine]"
  by (simp add: goodTrace_def traceLines_def trim_def isWhiteSpace_def contextLine_def plainResourceLine_def)

lemma broken_lines: "traceLines brokenTrace = [contextLine, ''{\"type\":'']"
  by (simp add: brokenTrace_def traceLines_def trim_def isWhiteSpace_def contextLine_def)

lemma fragment_lines: "traceLines fragmentResourceLine = [fragmentResourceLine]"
  by (simp add: traceLines_def trim_def isWhiteSpace_def fragmentResourceLine_def)


lemma null_lines: "traceLines nullTrace = [contextLine, ''42'', ''null'', plainResourceLine]"
  by (simp add: nullTrace_def traceLines_def trim_def isWhiteSpace_def contextLine_def
      plainResourceLine_def)

lemma load_good:
  "load exampleFiles exampleParse ''good.trace'' newTraceViewer =
     (Inr (),
      \<lparr> traces = [(''good.trace'',
           [JSONEvent (ContextCreated \<lparr> cc_contextId = ''c'', cc_browserName = ''chromium'' \<rparr>),
            JSONEvent (NetworkResource (exampleResource ''c'' ''f'' ''https://x/y'' ''s1''))])],
        browserNames = [''chromium''],
        resourceEventsByUrl = [''https://x/y'' \<mapsto> [exampleResource ''c'' ''f'' ''https://x/y'' ''s1'']],
        contextEventById = [''c'' \<mapsto> \<lparr> cc_contextId = ''c'', cc_browserName = ''chromium'' \<rparr>] \<rparr>)"
  by (simp add: load_def parseEvents_def exampleFiles_def good_lines)
     (simp add: example_defs indexEvent_def newTraceViewer_def Set_add_def)

text \<open>
  A line \<open>null\<close> is no parse error: the loop throws at it, after the lines before it
  have been indexed, and the trace is not appended.
\<close>

lemma load_null_line:
  "load exampleFiles exampleParse ''null.trace'' newTraceViewer =
     (Inl TypeError,
      \<lparr> traces = [], browserNames = [''chromium''], resourceEventsByUrl = Map.empty,
        contextEventById = [''c'' \<mapsto> \<lparr> cc_contextId = ''c'', cc_browserName = ''chromium'' \<rparr>] \<rparr>)"
  by (simp add: load_def parseEvents_def exampleFiles_def null_lines)
     (simp add: example_defs indexEvent_def newTraceViewer_def Set_add_def)

theorem C8_parse_error_atomic_witness:
  "load exampleFiles exampleParse ''broken.trace''
     (snd (load exampleFiles exampleParse ''good.trace'' newTraceViewer)) =
   (Inl ParseError, snd (load exampleFiles exampleParse ''good.trace'' newTraceViewer))
   \<and> browserNames (snd (load exampleFiles exampleParse ''good.trace'' newTraceViewer)) = [''chromium'']"
proof -
  have h1: "exampleFiles ''broken.trace'' = Some brokenTrace"
    by (simp add: exampleFiles_def)
  have h2: "''{\"type\":'' \<in> set (traceLines brokenTrace)"
    by (simp add: broken_lines)
  have h3: "exampleParse ''{\"type\":'' = None"
    by (simp add: example_defs)
  from C8_parse_error_atomic [where readFile = exampleFiles and JSON_parse = exampleParse,
      OF h1 h2 h3] show ?thesis
    by (simp add: load_good)
qed

lemma takeWhile_fragment:
  "CHR ''#'' \<notin> set b \<Longrightarrow> takeWhile (\<lambda>c. c \<noteq> CHR ''#'') (b @ CHR ''#'' # frag) = b"
  by (induction b) auto

lemma takeWhile_plain:
  "CHR ''#'' \<notin> set b \<Longrightarrow> takeWhile (\<lambda>c. c \<noteq> CHR ''#'') b = b"
  by (induction b) auto

text \<open>
  The lookup does not see the fragment: for a URL without \<open>#\<close> that the parser accepts,
  a request with any fragment retrieves the candidates of the request without one.
\<close>

lemma candidates_fragment:
  "CHR ''#'' \<notin> set b \<Longrightarrow> P b = Some s \<Longrightarrow>
     candidates P viewer (b @ CHR ''#'' # frag) = candidates P viewer b"
  by (simp add: candidates_def removeHash_def takeWhile_fragment takeWhile_plain)

text \<open>
  Claim C3. The claim, like the comment in the route handler, has every resource stored
  without the fragment of its URL, and the lookup removes the fragment of the request
  URL. \<open>load\<close> files a resource under its recorded URL as it is: the resource recorded
  under \<open>https://x/y#frag1\<close> is stored under that very key, nothing is stored under
  \<open>https://x/y\<close>, and requests for \<open>https://x/y#frag1\<close>, \<open>https://x/y#frag2\<close> and
  \<open>https://x/y\<close> all find no candidate.
\<close>

theorem C3_fragment_key_unreachable:
  "fst (load exampleFiles exampleParse ''fragment.trace'' newTraceViewer) = Inr ()
   \<and> resourceEventsByUrl (snd (load exampleFiles exampleParse ''fragment.trace'' newTraceViewer))
       ''https://x/y#frag1'' = Some [exampleResource ''c'' ''f'' ''https://x/y#frag1'' ''s2'']
   \<and> removeHash parseSerialised ''https://x/y#frag1'' = ''https://x/y''
   \<and> resourceEventsByUrl (snd (load exampleFiles exampleParse ''fragment.trace'' newTraceViewer))
       ''https://x/y'' = None
   \<and> candidates parseSerialised (snd (load exampleFiles exampleParse ''fragment.trace'' newTraceViewer))
       ''https://x/y#frag1'' = []
   \<and> candidates parseSerialised (snd (load exampleFiles exampleParse ''fragment.trace'' newTraceViewer))
       ''https://x/y#frag2'' = []
   \<and> candidates parseSerialised (snd (load exampleFiles exampleParse ''fragment.trace'' newTraceViewer))
       ''https://x/y'' = []"
proof -
  have l: "load exampleFiles exampleParse ''fragment.trace'' newTraceViewer =
     (Inr (),
      \<lparr> traces = [(''fragment.trace'',
           [JSONEvent (NetworkResource (exampleResource ''c'' ''f'' ''https://x/y#frag1'' ''s2''))])],
        browserNames = [],
        resourceEventsByUrl =
          [''https://x/y#frag1'' \<mapsto> [exampleResource ''c'' ''f'' ''https://x/y#frag1'' ''s2'']],
        contextEventById = Map.empty \<rparr>)"
    by (simp add: load_def parseEvents_def exampleFiles_def fragment_lines)
       (simp add: example_defs indexEvent_def newTraceViewer_def)
  have r: "removeHash parseSerialised ''https://x/y#frag1'' = ''https://x/y''"
    "removeHash parseSerialised ''https://x/y#frag2'' = ''https://x/y''"
    "removeHash parseSerialised ''https://x/y'' = ''https://x/y''"
    by (simp_all add: removeHash_def parseSerialised_def isAlpha_def isSchemeChar_def)
  show ?thesis
    by (simp add: l r candidates_def)
qed

section \<open>Properties of the route handler\<close>

lemma fold_frames:
  "fold (\<lambda>frameSnapshot m. m(fs_url frameSnapshot \<mapsto> frameSnapshot)) snapshot m0 u =
     (case filter (\<lambda>g. fs_url g = u) snapshot of
        [] \<Rightarrow> m0 u
      | g # gs \<Rightarrow> Some (last (g # gs)))"
proof (induction snapshot arbitrary: m0)
  case Nil
  show ?case by simp
next
  case (Cons a snapshot)
  have step:
    "fold (\<lambda>frameSnapshot m. m(fs_url frameSnapshot \<mapsto> frameSnapshot)) (a # snapshot) m0 =
       fold (\<lambda>frameSnapshot m. m(fs_url frameSnapshot \<mapsto> frameSnapshot)) snapshot
         (m0(fs_url a \<mapsto> a))"
    by (simp only: fold_simps comp_apply)
  show ?case
    unfolding step Cons.IH by (simp split: list.split)
qed

lemma frameBySrc_last:
  "frameBySrc snapshot u =
     (case filter (\<lambda>g. fs_url g = u) snapshot of
        [] \<Rightarrow> None
      | g # gs \<Rightarrow> Some (last (g # gs)))"
  by (simp add: frameBySrc_def fold_frames)

lemma frameBySrc_member:
  assumes "frameSnapshot \<in> set snapshot"
  shows "frameBySrc snapshot (fs_url frameSnapshot) =
           Some (last (filter (\<lambda>g. fs_url g = fs_url frameSnapshot) snapshot))"
proof -
  from assms have "filter (\<lambda>g. fs_url g = fs_url frameSnapshot) snapshot \<noteq> []"
    by (auto simp: filter_empty_conv)
  then show ?thesis
    by (simp add: frameBySrc_last split: list.split)
qed

text \<open>
  Claim C10. A request whose URL is the recorded URL of any frame of the snapshot is
  fulfilled as \<open>text/html\<close> with the \<open>html\<close> of the last frame of the snapshot that has
  this URL, whatever the resource index, the storage, the overrides and the replayed
  context are: neither the overrides nor the matcher take part.
\<close>

theorem C10_any_frame_url:
  assumes "frameSnapshot \<in> set snapshot"
    and "req_url request = fs_url frameSnapshot"
  shows "routeHandler P viewer storage snapshot contextId request rp =
           rp\<lparr> intercepted := intercepted rp @
                  [Fulfill ''text/html''
                     (fs_html (last (filter (\<lambda>g. fs_url g = req_url request) snapshot))) None] \<rparr>"
  using assms by (simp add: routeHandler_def frameBySrc_member)

text \<open>
  When no later frame of the snapshot has the root frame's URL, a request for that URL is
  answered with the root frame's \<open>html\<close>, whatever the resource index holds.
\<close>

lemma root_document_unshared:
  assumes "snapshot = root # rest"
    and "req_url request = fs_url root"
    and "\<forall>g\<in>set rest. fs_url g \<noteq> fs_url root"
  shows "routeHandler P viewer storage snapshot contextId request rp =
           rp\<lparr> intercepted := intercepted rp @ [Fulfill ''text/html'' (fs_html root) None] \<rparr>"
proof -
  have m: "root \<in> set snapshot" using assms(1) by simp
  have "filter (\<lambda>g. fs_url g = fs_url root) snapshot = [root]"
    using assms(1,3) by (simp add: filter_empty_conv)
  then show ?thesis
    using assms(2) by (simp add: routeHandler_def frameBySrc_member [OF m])
qed



lemmas handler_defs = routeHandler_def frameBySrc_def matchResource_def candidates_def
  removeHash_def parseSerialised_def isAlpha_def isSchemeChar_def readResource_def
  responseHeaders_def unknown_def newReplay_def exampleViewer_def indexEvent_def
  newTraceViewer_def exampleResource_def exampleFrame_def exampleSnapshot_def
  exampleStorage_def Let_def

theorem C10_any_frame_url_witness:
  "routeHandler parseSerialised
     (exampleViewer [exampleResource ''c'' ''f0'' ''https://a/frame.html'' ''s1'']) exampleStorage
     [exampleFrame ''f0'' ''https://a/'' ''<html>root</html>''
        [\<lparr> ov_url = ''https://a/frame.html'', ov_sha1 = ''ov1'' \<rparr>],
      exampleFrame ''f1'' ''https://a/frame.html'' ''<p>one</p>'' [],
      exampleFrame ''f2'' ''https://a/frame.html'' ''<p>two</p>'' []]
     ''c'' \<lparr> req_url = ''https://a/frame.html'', req_frameUrl = ''https://a/'' \<rparr> newReplay
   = \<lparr> unknownUrls = [], console = [], intercepted = [Fulfill ''text/html'' ''<p>two</p>'' None] \<rparr>"
proof -
  let ?f1 = "exampleFrame ''f1'' ''https://a/frame.html'' ''<p>one</p>'' []"
  let ?snapshot = "[exampleFrame ''f0'' ''https://a/'' ''<html>root</html>''
        [\<lparr> ov_url = ''https://a/frame.html'', ov_sha1 = ''ov1'' \<rparr>],
      ?f1, exampleFrame ''f2'' ''https://a/frame.html'' ''<p>two</p>'' []]"
  let ?request = "\<lparr> req_url = ''https://a/frame.html'', req_frameUrl = ''https://a/'' \<rparr>"
  have h1: "?f1 \<in> set ?snapshot" by simp
  have h2: "req_url ?request = fs_url ?f1" by (simp add: exampleFrame_def)
  from C10_any_frame_url [OF h1 h2] show ?thesis
    by (simp add: exampleFrame_def newReplay_def)
qed

text \<open>
  Claim C5. The claim serves the root frame's own \<open>html\<close> for the root frame's URL. The
  table of frames is keyed by URL and filled in the order of the snapshot, so a child frame
  recorded under the root's URL takes the root's place: here the request for the root
  document \<open>https://a/\<close> is answered with the child's \<open>html\<close>.
\<close>

theorem C5_shared_url_child_served:
  "req_url \<lparr> req_url = ''https://a/'', req_frameUrl = ''https://a/'' \<rparr>
     = fs_url (hd [exampleFrame ''f0'' ''https://a/'' ''<html>root</html>'' [],
                   exampleFrame ''f1'' ''https://a/'' ''<p>child</p>'' []])
   \<and> intercepted (routeHandler parseSerialised newTraceViewer exampleStorage
       [exampleFrame ''f0'' ''https://a/'' ''<html>root</html>'' [],
        exampleFrame ''f1'' ''https://a/'' ''<p>child</p>'' []]
       ''c'' \<lparr> req_url = ''https://a/'', req_frameUrl = ''https://a/'' \<rparr> newReplay)
     = [Fulfill ''text/html'' ''<p>child</p>'' None]
   \<and> ''<p>child</p>''
       \<noteq> fs_html (hd [exampleFrame ''f0'' ''https://a/'' ''<html>root</html>'' [],
                       exampleFrame ''f1'' ''https://a/'' ''<p>child</p>'' []])"
  by (simp add: handler_defs)





lemma routeHandler_unmatched:
  assumes "unmatchedRequest P viewer storage snapshot contextId request"
  shows "routeHandler P viewer storage snapshot contextId request rp = unknown (req_url request) rp"
proof -
  from assms have n: "frameBySrc snapshot (req_url request) = None"
    by (simp add: unmatchedRequest_def)
  show ?thesis
  proof (cases "frameBySrc snapshot (req_frameUrl request)")
    case None
    with n show ?thesis by (simp add: routeHandler_def)
  next
    case (Some frameSnapshot)
    show ?thesis
    proof (cases "matchResource P viewer (req_url request) contextId (fs_frameId frameSnapshot)")
      case None
      with n Some show ?thesis by (simp add: routeHandler_def)
    next
      case (Some resource)
      with assms n \<open>frameBySrc snapshot (req_frameUrl request) = Some frameSnapshot\<close>
      show ?thesis by (simp add: routeHandler_def unmatchedRequest_def)
    qed
  qed
qed

lemma routeHandler_answered:
  assumes "\<not> unmatchedRequest P viewer storage snapshot contextId request"
  shows "\<exists>contentType body headers.
       routeHandler P viewer storage snapshot contextId request rp =
         rp\<lparr> intercepted := intercepted rp @ [Fulfill contentType body headers] \<rparr>"
proof (cases "frameBySrc snapshot (req_url request)")
  case (Some frameSnapshot)
  then have "routeHandler P viewer storage snapshot contextId request rp =
         rp\<lparr> intercepted := intercepted rp @
                [Fulfill ''text/html'' (fs_html frameSnapshot) None] \<rparr>"
    by (simp add: routeHandler_def)
  then show ?thesis by blast
next
  case None
  with assms obtain frameSnapshot resource resourceData where
    "frameBySrc snapshot (req_frameUrl request) = Some frameSnapshot"
    "matchResource P viewer (req_url request) contextId (fs_frameId frameSnapshot) = Some resource"
    "readResource storage resource
       (map_option ov_sha1
          (find (\<lambda>override. ov_url override = req_url request)
             (fs_resourceOverrides frameSnapshot))) = Some resourceData"
    by (auto simp: unmatchedRequest_def split: option.splits)
  with None have "routeHandler P viewer storage snapshot contextId request rp =
         rp\<lparr> intercepted := intercepted rp @
                [Fulfill (rd_contentType resourceData) (rd_body resourceData)
                   (Some (responseHeaders (rd_headers resourceData)))] \<rparr>"
    by (simp add: routeHandler_def)
  then show ?thesis by blast
qed

lemma unknown_intercepted: "intercepted (unknown u rp) = intercepted rp @ [Abort]"
  by (simp add: unknown_def Let_def)

lemma unknown_unknownUrls:
  "unknownUrls (unknown u rp) =
     (if u \<in> set (unknownUrls rp) then unknownUrls rp else unknownUrls rp @ [u])"
  by (simp add: unknown_def Let_def)

lemma unknown_console:
  "console (unknown u rp) =
     (if u \<in> set (unknownUrls rp) then console rp
      else console rp @ [''Request to unknown url: '' @ u])"
  by (simp add: unknown_def Let_def)

lemma renderRequests_snoc:
  "renderRequests P viewer storage snapshot contextId (requests @ [rq]) =
     routeHandler P viewer storage snapshot contextId rq
       (renderRequests P viewer storage snapshot contextId requests)"
  by (simp add: renderRequests_def)

lemma renderRequests_Nil:
  "renderRequests P viewer storage snapshot contextId [] = newReplay"
  by (simp add: renderRequests_def)

lemma renderRequests_intercepted:
  "length (intercepted (renderRequests P viewer storage snapshot contextId requests))
     = length requests
   \<and> (\<forall>i<length requests.
        unmatchedRequest P viewer storage snapshot contextId (requests ! i) \<longrightarrow>
          intercepted (renderRequests P viewer storage snapshot contextId requests) ! i = Abort)"
proof (induction requests rule: rev_induct)
  case Nil
  show ?case by (simp add: renderRequests_Nil newReplay_def)
next
  case (snoc rq requests)
  let ?rp = "renderRequests P viewer storage snapshot contextId requests"
  show ?case
  proof (cases "unmatchedRequest P viewer storage snapshot contextId rq")
    case True
    from snoc True show ?thesis
      by (simp add: renderRequests_snoc routeHandler_unmatched unknown_intercepted nth_append)
  next
    case False
    then obtain contentType body headers where
      r: "routeHandler P viewer storage snapshot contextId rq ?rp =
            ?rp\<lparr> intercepted := intercepted ?rp @ [Fulfill contentType body headers] \<rparr>"
      using routeHandler_answered by blast
    from snoc False show ?thesis
      by (simp add: renderRequests_snoc r nth_append)
  qed
qed

lemma renderRequests_console:
  "console (renderRequests P viewer storage snapshot contextId requests) =
     map (\<lambda>v. ''Request to unknown url: '' @ v)
       (unknownUrls (renderRequests P viewer storage snapshot contextId requests))"
proof (induction requests rule: rev_induct)
  case Nil
  show ?case by (simp add: renderRequests_Nil newReplay_def)
next
  case (snoc rq requests)
  let ?rp = "renderRequests P viewer storage snapshot contextId requests"
  show ?case
  proof (cases "unmatchedRequest P viewer storage snapshot contextId rq")
    case True
    from snoc True show ?thesis
      by (simp add: renderRequests_snoc routeHandler_unmatched unknown_console unknown_unknownUrls)
  next
    case False
    then obtain contentType body headers where
      r: "routeHandler P viewer storage snapshot contextId rq ?rp =
            ?rp\<lparr> intercepted := intercepted ?rp @ [Fulfill contentType body headers] \<rparr>"
      using routeHandler_answered by blast
    from snoc show ?thesis
      by (simp add: renderRequests_snoc r)
  qed
qed

lemma renderRequests_unknownUrls:
  "distinct (unknownUrls (renderRequests P viewer storage snapshot contextId requests))
   \<and> set (unknownUrls (renderRequests P viewer storage snapshot contextId requests)) =
       req_url ` {rq \<in> set requests. unmatchedRequest P viewer storage snapshot contextId rq}"
proof (induction requests rule: rev_induct)
  case Nil
  show ?case by (simp add: renderRequests_Nil newReplay_def)
next
  case (snoc rq requests)
  let ?rp = "renderRequests P viewer storage snapshot contextId requests"
  let ?U = "\<lambda>rs. req_url ` {rq \<in> set rs. unmatchedRequest P viewer storage snapshot contextId rq}"
  show ?case
  proof (cases "unmatchedRequest P viewer storage snapshot contextId rq")
    case True
    then have u: "?U (requests @ [rq]) = insert (req_url rq) (?U requests)"
      by auto
    from snoc True show ?thesis
      unfolding u
      by (simp add: renderRequests_snoc routeHandler_unmatched unknown_unknownUrls insert_absorb)
  next
    case False
    then have u: "?U (requests @ [rq]) = ?U requests"
      by auto
    from False obtain contentType body headers where
      r: "routeHandler P viewer storage snapshot contextId rq ?rp =
            ?rp\<lparr> intercepted := intercepted ?rp @ [Fulfill contentType body headers] \<rparr>"
      using routeHandler_answered by blast
    from snoc show ?thesis
      unfolding u by (simp add: renderRequests_snoc r)
  qed
qed

lemma count_distinct:
  "distinct xs \<Longrightarrow> length (filter (\<lambda>v. v = u) xs) = (if u \<in> set xs then 1 else 0)"
  by (induction xs) auto

lemma count_messages:
  "length (filter (\<lambda>line. line = m @ u) (map (\<lambda>v. m @ v) xs)) = length (filter (\<lambda>v. v = u) xs)"
  by (induction xs) auto

text \<open>
  Claim C6. In one replay, every request gets a result; the result of every request the
  handler has no answer for is an abort; the console holds the warning for a URL exactly
  once if some such request had this URL and not at all otherwise; and it holds nothing
  else.
\<close>

theorem C6_unknown_logged_once:
  "length (intercepted (renderRequests P viewer storage snapshot contextId requests))
     = length requests
   \<and> (\<forall>i<length requests.
        unmatchedRequest P viewer storage snapshot contextId (requests ! i) \<longrightarrow>
          intercepted (renderRequests P viewer storage snapshot contextId requests) ! i = Abort)
   \<and> (\<forall>url.
        length (filter (\<lambda>line. line = ''Request to unknown url: '' @ url)
                  (console (renderRequests P viewer storage snapshot contextId requests)))
          = (if \<exists>rq\<in>set requests.
                  req_url rq = url \<and> unmatchedRequest P viewer storage snapshot contextId rq
             then 1 else 0))
   \<and> length (console (renderRequests P viewer storage snapshot contextId requests))
       = card (req_url ` {rq \<in> set requests.
                            unmatchedRequest P viewer storage snapshot contextId rq})"
proof -
  let ?rp = "renderRequests P viewer storage snapshot contextId requests"
  let ?U = "req_url ` {rq \<in> set requests. unmatchedRequest P viewer storage snapshot contextId rq}"
  note con = renderRequests_console [of P viewer storage snapshot contextId requests]
  from renderRequests_unknownUrls [of P viewer storage snapshot contextId requests]
  have dist: "distinct (unknownUrls ?rp)" and us: "set (unknownUrls ?rp) = ?U"
    by blast+
  have cnt: "length (filter (\<lambda>line. line = ''Request to unknown url: '' @ url) (console ?rp))
          = (if \<exists>rq\<in>set requests.
                  req_url rq = url \<and> unmatchedRequest P viewer storage snapshot contextId rq
             then 1 else 0)" for url
  proof -
    have "length (filter (\<lambda>line. line = ''Request to unknown url: '' @ url) (console ?rp))
            = (if url \<in> set (unknownUrls ?rp) then 1 else 0)"
      unfolding con count_messages by (rule count_distinct [OF dist])
    also have "url \<in> set (unknownUrls ?rp) \<longleftrightarrow>
        (\<exists>rq\<in>set requests.
           req_url rq = url \<and> unmatchedRequest P viewer storage snapshot contextId rq)"
      unfolding us by auto
    finally show ?thesis .
  qed
  have "length (console ?rp) = length (unknownUrls ?rp)"
    unfolding con by simp
  also have "\<dots> = card ?U"
    using dist us by (metis distinct_card)
  finally have card: "length (console ?rp) = card ?U" .
  from renderRequests_intercepted [of P viewer storage snapshot contextId requests] cnt card
  show ?thesis by blast
qed


theorem C6_unknown_logged_once_witness:
  "length (filter (\<lambda>line. line = ''Request to unknown url: https://a/missing.js'')
     (console (renderRequests parseSerialised newTraceViewer exampleStorage exampleSnapshot ''c''
        exampleRequests))) = 1
   \<and> length (console (renderRequests parseSerialised newTraceViewer exampleStorage exampleSnapshot
        ''c'' exampleRequests)) = 1
   \<and> length (intercepted (renderRequests parseSerialised newTraceViewer exampleStorage
        exampleSnapshot ''c'' exampleRequests)) = 3
   \<and> intercepted (renderRequests parseSerialised newTraceViewer exampleStorage exampleSnapshot ''c''
        exampleRequests) ! 1 = Abort
   \<and> intercepted (renderRequests parseSerialised newTraceViewer exampleStorage exampleSnapshot ''c''
        exampleRequests) ! 2 = Abort"
proof -
  let ?un = "unmatchedRequest parseSerialised newTraceViewer exampleStorage exampleSnapshot ''c''"
  let ?rp = "renderRequests parseSerialised newTraceViewer exampleStorage exampleSnapshot ''c''
        exampleRequests"
  have u0: "\<not> ?un \<lparr> req_url = ''https://a/'', req_frameUrl = ''https://a/'' \<rparr>"
    by (simp add: unmatchedRequest_def frameBySrc_def exampleSnapshot_def exampleFrame_def)
  have u1: "?un \<lparr> req_url = ''https://a/missing.js'', req_frameUrl = ''https://a/'' \<rparr>"
    by (simp add: unmatchedRequest_def frameBySrc_def exampleSnapshot_def exampleFrame_def
        matchResource_def candidates_def newTraceViewer_def)
  have "req_url ` {rq \<in> set exampleRequests. ?un rq} =
          set (map req_url (filter ?un exampleRequests))"
    by auto
  also have "\<dots> = {''https://a/missing.js''}"
    using u0 u1 by (simp add: exampleRequests_def)
  finally have s: "req_url ` {rq \<in> set exampleRequests. ?un rq} = {''https://a/missing.js''}" .
  have e: "\<exists>rq\<in>set exampleRequests. req_url rq = ''https://a/missing.js'' \<and> ?un rq"
    using u1 by (simp add: exampleRequests_def)
  have n: "length exampleRequests = 3" "exampleRequests ! 1 = \<lparr> req_url = ''https://a/missing.js'', req_frameUrl = ''https://a/'' \<rparr>"
    "exampleRequests ! 2 = \<lparr> req_url = ''https://a/missing.js'', req_frameUrl = ''https://a/'' \<rparr>"
    by (simp_all add: exampleRequests_def)
  note t = C6_unknown_logged_once [of parseSerialised newTraceViewer exampleStorage exampleSnapshot
      "''c''" exampleRequests]
  from t have a: "length (intercepted ?rp) = 3" using n by simp
  from t have "\<forall>i<length exampleRequests. ?un (exampleRequests ! i) \<longrightarrow> intercepted ?rp ! i = Abort"
    by blast
  then have b: "intercepted ?rp ! 1 = Abort" "intercepted ?rp ! 2 = Abort"
    using n u1 by auto
  from t e have c: "length (filter (\<lambda>line. line = ''Request to unknown url: https://a/missing.js'')
     (console ?rp)) = 1"
    by (simp del: set_filter)
  from t have d: "length (console ?rp) = 1"
    unfolding s by simp
  from a b c d show ?thesis by blast
qed


section \<open>Properties of the context table\<close>










section \<open>Properties of the frame walk\<close>

lemma postprocess_smaller:
  "Postprocess d g \<in> set (postprocessSnapshotFrame snapshot frameSnapshot frame) \<Longrightarrow>
     size g < size frame"
proof (induction snapshot frameSnapshot frame rule: postprocessSnapshotFrame.induct)
  case (1 snapshot frameSnapshot u children)
  from "1.prems" obtain c cd where c: "c \<in> set children" and cd: "cd \<in> set snapshot"
    and e: "endsWith (frameUrl c) (fs_url cd)"
    and m: "Postprocess d g = Postprocess cd c \<or>
            Postprocess d g \<in> set (postprocessSnapshotFrame snapshot cd c)"
    by (auto split: if_splits)
  have lt: "size c < size (Frame u children)"
    using c by (simp add: size_list_estimation' less_Suc_eq_le)
  from m show ?case
  proof
    assume "Postprocess d g = Postprocess cd c"
    with lt show ?thesis by simp
  next
    assume "Postprocess d g \<in> set (postprocessSnapshotFrame snapshot cd c)"
    with "1.IH" [OF c cd e] have "size g < size c" by simp
    with lt show ?thesis by simp
  qed
qed

lemma recursedWith_append:
  "recursedWith c (xs @ ys) = recursedWith c xs @ recursedWith c ys"
  by (simp add: recursedWith_def List.map_filter_def)

lemma recursedWith_nested:
  "recursedWith c (postprocessSnapshotFrame snapshot frameSnapshot c) = []"
proof -
  have "\<forall>step\<in>set (postprocessSnapshotFrame snapshot frameSnapshot c).
          (case step of
                 Postprocess childData childFrame \<Rightarrow>
                   if childFrame = c then Some childData else None
               | WaitForLoadState _ \<Rightarrow> None) = None"
  proof
    fix step assume s: "step \<in> set (postprocessSnapshotFrame snapshot frameSnapshot c)"
    show "(case step of
                 Postprocess childData childFrame \<Rightarrow>
                   if childFrame = c then Some childData else None
               | WaitForLoadState _ \<Rightarrow> None) = None"
    proof (cases step)
      case (WaitForLoadState x)
      then show ?thesis by simp
    next
      case (Postprocess d g)
      with s postprocess_smaller have "size g < size c" by blast
      then have "g \<noteq> c" by auto
      with Postprocess show ?thesis by simp
    qed
  qed
  then show ?thesis
    by (simp add: recursedWith_def List.map_filter_def filter_empty_conv)
qed

lemma recursedWith_child:
  "recursedWith c
     (concat (map (\<lambda>childData.
           if endsWith (frameUrl c) (fs_url childData) then
             Postprocess childData c # postprocessSnapshotFrame snapshot childData c
           else []) frames))
   = filter (\<lambda>childData. endsWith (frameUrl c) (fs_url childData)) frames"
proof (induction frames)
  case Nil
  show ?case by (simp add: recursedWith_def)
next
  case (Cons a frames)
  have h: "recursedWith c (Postprocess a c # postprocessSnapshotFrame snapshot a c) = [a]"
    using recursedWith_nested [of c snapshot a]
    by (simp add: recursedWith_def)
  have n: "recursedWith c [] = []" by (simp add: recursedWith_def)
  show ?case
    using Cons.IH h n by (simp add: recursedWith_append del: postprocessSnapshotFrame.simps)
qed

text \<open>
  Claim C9, as amended. The walk treats the child frames one after the other, and for a
  live child frame it calls itself with every frame of the snapshot whose recorded URL the
  child's URL ends with, in the order of the snapshot, not with the first of them only.
\<close>

theorem C9_every_suffix_frame:
  "postprocessSnapshotFrame snapshot frameSnapshot (Frame u children) =
     concat (map (\<lambda>childFrame.
       postprocessSnapshotFrame snapshot frameSnapshot (Frame u [childFrame])) children)
   \<and> recursedWith childFrame
       (postprocessSnapshotFrame snapshot frameSnapshot (Frame u [childFrame]))
     = filter (\<lambda>childData. endsWith (frameUrl childFrame) (fs_url childData)) snapshot"
proof -
  have a: "postprocessSnapshotFrame snapshot frameSnapshot (Frame u children) =
     concat (map (\<lambda>childFrame.
       postprocessSnapshotFrame snapshot frameSnapshot (Frame u [childFrame])) children)"
    by simp
  have b: "recursedWith childFrame
       (postprocessSnapshotFrame snapshot frameSnapshot (Frame u [childFrame]))
     = filter (\<lambda>childData. endsWith (frameUrl childFrame) (fs_url childData)) snapshot"
    using recursedWith_child [of childFrame snapshot snapshot]
    by (simp add: recursedWith_def)
  from a b show ?thesis by blast
qed


theorem C9_every_suffix_frame_witness:
  "recursedWith (Frame ''about:blank'' [])
     (postprocessSnapshotFrame blankSnapshot (hd blankSnapshot)
        (Frame ''https://a/'' [Frame ''about:blank'' []]))
   = [exampleFrame ''f1'' ''about:blank'' ''<p>one</p>'' [],
      exampleFrame ''f2'' ''about:blank'' ''<p>two</p>'' []]"
  using C9_every_suffix_frame [of blankSnapshot "hd blankSnapshot" "''https://a/''"
      "[Frame ''about:blank'' []]" "Frame ''about:blank'' []"]
  by (simp add: blankSnapshot_def exampleFrame_def endsWith_def)

text \<open>
  The claim as written selects exactly one snapshot frame. Here two snapshot frames have
  the child's URL, and the walk calls itself with both.
\<close>

theorem C9_two_frames_counterexample:
  "endsWith (frameUrl (Frame ''about:blank'' []))
     (fs_url (exampleFrame ''f1'' ''about:blank'' ''<p>one</p>'' []))
   \<and> endsWith (frameUrl (Frame ''about:blank'' []))
     (fs_url (exampleFrame ''f2'' ''about:blank'' ''<p>two</p>'' []))
   \<and> postprocessSnapshotFrame blankSnapshot (hd blankSnapshot)
       (Frame ''https://a/'' [Frame ''about:blank'' []])
     = [WaitForLoadState (Frame ''about:blank'' []),
        Postprocess (exampleFrame ''f1'' ''about:blank'' ''<p>one</p>'' []) (Frame ''about:blank'' []),
        Postprocess (exampleFrame ''f2'' ''about:blank'' ''<p>two</p>'' []) (Frame ''about:blank'' [])]"
  by (simp add: blankSnapshot_def exampleFrame_def endsWith_def)


end
